theory Spec2Isabelle
  imports Main "HOL-Library.Word"
begin

unbundle bit_operations_syntax

section \<open>Data model\<close>

text \<open>
  Bytes of a Python \<open>bytes\<close> object are 8-bit words.  A Python \<open>str\<close> is a sequence of
  Unicode code points, kept as natural numbers.  Python integers are unbounded and are
  modelled as \<open>int\<close>.
\<close>

type_synonym byte = "8 word"
type_synonym pystr = "nat list"

text \<open>
  The exceptions that leave a function of \<open>wdpass\<close>: \<open>sys.exit(1)\<close> and the uncaught
  exceptions of the indexing, packing, encoding and device calls.
\<close>

datatype error =
    SysExit int
  | IndexError
  | StructError
  | TypeError
  | UnicodeEncodeError
  | DeviceError

text \<open>The three printing helpers \<open>fail\<close>, \<open>success\<close> and \<open>question\<close>.\<close>

datatype message = Fail string | Success string | Question string

text \<open>
  A command handed to \<open>py3_sg\<close>: \<open>read_as_bin_str(dev, cdb, n)\<close> or
  \<open>write(dev, cdb, data)\<close>.
\<close>

datatype event = SgRead "byte list" nat | SgWrite "byte list" "byte list"

text \<open>
  What the program has done so far: the commands it handed to the device, the messages
  it printed, and the derived passwords it handed to the secret service.
\<close>

record world =
  sent :: "event list"
  out :: "message list"
  stored :: "byte list list"

text \<open>
  The collaborators of the program.  The device answers a read as a function of the
  commands sent before it and of the descriptor (\<open>None\<close>: \<open>py3_sg\<close> raises); it accepts
  or rejects a write.  The secret service holds at most one saved password for the
  device; \<open>os.urandom\<close> is a stream of bytes.
\<close>

record env =
  dev_read :: "event list \<Rightarrow> byte list \<Rightarrow> nat \<Rightarrow> byte list option"
  dev_write :: "event list \<Rightarrow> byte list \<Rightarrow> byte list \<Rightarrow> bool"
  secret_lookup :: "byte list option"
  secret_store_ok :: bool
  random_byte :: "nat \<Rightarrow> byte"

type_synonym 'a io = "world \<Rightarrow> (error + 'a) \<times> world"

definition then_do :: "'a io \<Rightarrow> ('a \<Rightarrow> 'b io) \<Rightarrow> 'b io" where
  "then_do m f w = (case m w of (Inl e, w') \<Rightarrow> (Inl e, w') | (Inr x, w') \<Rightarrow> f x w')"

definition ret :: "'a \<Rightarrow> 'a io" where
  "ret x w = (Inr x, w)"

definition raise :: "error \<Rightarrow> 'a io" where
  "raise e w = (Inl e, w)"

definition lift :: "error + 'a \<Rightarrow> 'a io" where
  "lift r w = (r, w)"

definition print :: "message \<Rightarrow> unit io" where
  "print m w = (Inr (), w\<lparr>out := out w @ [m]\<rparr>)"

definition BLOCK_SIZE :: nat where
  "BLOCK_SIZE = 512"

section \<open>Python primitives\<close>

text \<open>\<open>xs[i]\<close> for a non-negative literal index: \<open>IndexError\<close> out of range.\<close>

definition idx :: "'a list \<Rightarrow> nat \<Rightarrow> error + 'a" where
  "idx xs i = (if i < length xs then Inr (xs ! i) else Inl IndexError)"

text \<open>\<open>xs[i:j]\<close> never raises.\<close>

definition slice :: "'a list \<Rightarrow> nat \<Rightarrow> nat \<Rightarrow> 'a list" where
  "slice xs i j = take (j - i) (drop i xs)"

text \<open>\<open>xs[i] = v\<close> on a list: \<open>IndexError\<close> out of range.\<close>

definition set_item :: "'a list \<Rightarrow> nat \<Rightarrow> 'a \<Rightarrow> error + 'a list" where
  "set_item xs i v = (if i < length xs then Inr (xs[i := v]) else Inl IndexError)"

text \<open>
  The loop \<open>i = k; for c in cs: cdb[i] = c; i += 1\<close> that \<open>read_handy_store\<close> and
  \<open>secure_erase\<close> run.
\<close>

fun store_from :: "int list \<Rightarrow> nat \<Rightarrow> int list \<Rightarrow> error + int list" where
  "store_from cdb i [] = Inr cdb"
| "store_from cdb i (c # cs) =
     (case set_item cdb i c of Inl e \<Rightarrow> Inl e | Inr cdb' \<Rightarrow> store_from cdb' (Suc i) cs)"

text \<open>
  \<open>hex(n)\<close> and the format \<open>{n:#x}\<close>: \<open>0x\<close> and the lower-case digits, most significant
  first, after the sign.
\<close>

definition hex_digit :: "nat \<Rightarrow> char" where
  "hex_digit d = (if d < 10 then char_of (48 + d) else char_of (87 + d))"

function hex_digits :: "nat \<Rightarrow> string" where
  "hex_digits n = (if n < 16 then [hex_digit n] else hex_digits (n div 16) @ [hex_digit (n mod 16)])"
  by pat_completeness auto
termination
  by (relation "measure id") auto

declare hex_digits.simps [simp del]

definition hex :: "int \<Rightarrow> string" where
  "hex n = (if n < 0 then ''-0x'' @ hex_digits (nat (- n)) else ''0x'' @ hex_digits (nat n))"

text \<open>\<open>struct.pack('{n}B', *cdb)\<close>: every item must be in 0..255.\<close>

fun scsi_pack_cdb :: "int list \<Rightarrow> error + byte list" where
  "scsi_pack_cdb [] = Inr []"
| "scsi_pack_cdb (c # cs) =
     (if 0 \<le> c \<and> c \<le> 255
      then (case scsi_pack_cdb cs of Inl e \<Rightarrow> Inl e | Inr bs \<Rightarrow> Inr (word_of_int c # bs))
      else Inl StructError)"

text \<open>\<open>struct.pack('!I', num)\<close> and \<open>struct.pack('!H', num)\<close>: big-endian, range-checked.\<close>

definition htonl :: "int \<Rightarrow> error + byte list" where
  "htonl num =
     (if 0 \<le> num \<and> num < 2 ^ 32
      then Inr [word_of_int (num div 2 ^ 24), word_of_int (num div 2 ^ 16),
                word_of_int (num div 2 ^ 8), word_of_int num]
      else Inl StructError)"

definition htons :: "int \<Rightarrow> error + byte list" where
  "htons num =
     (if 0 \<le> num \<and> num < 2 ^ 16
      then Inr [word_of_int (num div 2 ^ 8), word_of_int num]
      else Inl StructError)"

text \<open>\<open>struct.unpack_from("<I", data)\<close>: little-endian, needs four bytes.\<close>

definition unpack_le_u32 :: "byte list \<Rightarrow> error + int" where
  "unpack_le_u32 bs =
     (if length bs < 4 then Inl StructError
      else Inr (uint (bs ! 0) + 2 ^ 8 * uint (bs ! 1) + 2 ^ 16 * uint (bs ! 2)
                + 2 ^ 24 * uint (bs ! 3)))"

section \<open>Device reads\<close>

text \<open>\<open>py3_sg.read_as_bin_str(dev, cdb, n)\<close>: the command is recorded, the device answers.\<close>

definition sg_read :: "env \<Rightarrow> byte list \<Rightarrow> nat \<Rightarrow> byte list io" where
  "sg_read e cdb n w =
     (let w' = w\<lparr>sent := sent w @ [SgRead cdb n]\<rparr>
      in case dev_read e (sent w) cdb n of
           None \<Rightarrow> (Inl DeviceError, w')
         | Some d \<Rightarrow> (Inr d, w'))"

definition read_handy_store :: "env \<Rightarrow> int \<Rightarrow> byte list io" where
  "read_handy_store e page =
     then_do (lift (htonl page)) (\<lambda>bs.
     then_do (lift (store_from [0xD8, 0x00, 0x00, 0x00, 0x00, 0x01, 0x00, 0x00, 0x01, 0x00] 2
                      (map uint bs))) (\<lambda>cdb.
     then_do (lift (scsi_pack_cdb cdb)) (\<lambda>packed.
       sg_read e packed BLOCK_SIZE)))"

text \<open>The loop \<open>for i in range(510): c = c + data[i]\<close>, over the indices still to visit.\<close>

fun sum_bytes :: "byte list \<Rightarrow> nat list \<Rightarrow> int \<Rightarrow> error + int" where
  "sum_bytes data [] c = Inr c"
| "sum_bytes data (i # is) c =
     (case idx data i of Inl e \<Rightarrow> Inl e | Inr b \<Rightarrow> sum_bytes data is (c + uint b))"

definition hsb_checksum :: "byte list \<Rightarrow> error + string" where
  "hsb_checksum data =
     (case sum_bytes data [0..<510] 0 of
        Inl e \<Rightarrow> Inl e
      | Inr c \<Rightarrow>
          (case idx data 0 of
             Inl e \<Rightarrow> Inl e
           | Inr b \<Rightarrow> (let c' = c + uint b; r = (c' * (- 1)) AND 0xFF in Inr (hex r))))"

definition status_cdb :: "int list" where
  "status_cdb = [0xC0, 0x45, 0x00, 0x00, 0x00, 0x00, 0x00, 0x00, 0x30, 0x00]"

definition get_encryption_status :: "env \<Rightarrow> (int \<times> int \<times> byte list) io" where
  "get_encryption_status e =
     then_do (lift (scsi_pack_cdb status_cdb)) (\<lambda>packed.
     then_do (sg_read e packed BLOCK_SIZE) (\<lambda>data.
     then_do (lift (idx data 0)) (\<lambda>d0.
       if d0 \<noteq> 0x45
       then then_do (print (Fail (''Wrong encryption status signature '' @ hex (uint d0))))
              (\<lambda>_. raise (SysExit 1))
       else
         then_do (lift (idx data 3)) (\<lambda>d3.
         then_do (lift (idx data 4)) (\<lambda>d4.
           ret (uint d3, uint d4, slice data 8 12))))))"

text \<open>
  The signature loop of \<open>read_HSB1\<close>: \<open>for i in range(0, 4)\<close>, leaving at the first
  byte that differs.
\<close>

fun check_signature :: "int list \<Rightarrow> byte list \<Rightarrow> nat list \<Rightarrow> unit io" where
  "check_signature signature sector_data [] = ret ()"
| "check_signature signature sector_data (i # is) =
     then_do (lift (idx signature i)) (\<lambda>s.
     then_do (lift (idx sector_data i)) (\<lambda>d.
       if s \<noteq> uint d
       then then_do (print (Fail ''Wrong HSB1 signature.'')) (\<lambda>_. raise (SysExit 1))
       else check_signature signature sector_data is))"

definition read_HSB1 :: "env \<Rightarrow> (int \<times> byte list \<times> byte list) io" where
  "read_HSB1 e =
     then_do (read_handy_store e 1) (\<lambda>sector_data.
     then_do (lift (hsb_checksum sector_data)) (\<lambda>cs.
     then_do (lift (idx sector_data 511)) (\<lambda>d511.
       if cs \<noteq> hex (uint d511)
       then then_do (print (Fail ''Wrong HSB1 checksum'')) (\<lambda>_. raise (SysExit 1))
       else
         then_do (check_signature [0x00, 0x01, 0x44, 0x57] sector_data [0..<4]) (\<lambda>_.
         then_do (lift (unpack_le_u32 (drop 8 sector_data))) (\<lambda>iteration.
           ret (iteration, slice sector_data 12 20 @ [0x00, 0x00],
                slice sector_data 24 226 @ [0x00, 0x00]))))))"

section \<open>SHA-256\<close>

text \<open>
  \<open>hashlib.sha256(m).digest()\<close>, as FIPS 180-4 defines it, on 32-bit words: the message
  is padded to a multiple of 64 bytes, and every 64-byte block updates eight hash words.
\<close>

type_synonym u32 = "32 word"
type_synonym hash_words = "u32 \<times> u32 \<times> u32 \<times> u32 \<times> u32 \<times> u32 \<times> u32 \<times> u32"

definition sha_ch :: "u32 \<Rightarrow> u32 \<Rightarrow> u32 \<Rightarrow> u32" where
  "sha_ch x y z = (x AND y) XOR (NOT x AND z)"

definition sha_maj :: "u32 \<Rightarrow> u32 \<Rightarrow> u32 \<Rightarrow> u32" where
  "sha_maj x y z = (x AND y) XOR (x AND z) XOR (y AND z)"

definition big_sigma0 :: "u32 \<Rightarrow> u32" where
  "big_sigma0 x = word_rotr 2 x XOR word_rotr 13 x XOR word_rotr 22 x"

definition big_sigma1 :: "u32 \<Rightarrow> u32" where
  "big_sigma1 x = word_rotr 6 x XOR word_rotr 11 x XOR word_rotr 25 x"

definition small_sigma0 :: "u32 \<Rightarrow> u32" where
  "small_sigma0 x = word_rotr 7 x XOR word_rotr 18 x XOR drop_bit 3 x"

definition small_sigma1 :: "u32 \<Rightarrow> u32" where
  "small_sigma1 x = word_rotr 17 x XOR word_rotr 19 x XOR drop_bit 10 x"

definition sha_k :: "u32 list" where
  "sha_k =
       [0x428a2f98, 0x71374491, 0xb5c0fbcf, 0xe9b5dba5]
     @ [0x3956c25b, 0x59f111f1, 0x923f82a4, 0xab1c5ed5]
     @ [0xd807aa98, 0x12835b01, 0x243185be, 0x550c7dc3]
     @ [0x72be5d74, 0x80deb1fe, 0x9bdc06a7, 0xc19bf174]
     @ [0xe49b69c1, 0xefbe4786, 0x0fc19dc6, 0x240ca1cc]
     @ [0x2de92c6f, 0x4a7484aa, 0x5cb0a9dc, 0x76f988da]
     @ [0x983e5152, 0xa831c66d, 0xb00327c8, 0xbf597fc7]
     @ [0xc6e00bf3, 0xd5a79147, 0x06ca6351, 0x14292967]
     @ [0x27b70a85, 0x2e1b2138, 0x4d2c6dfc, 0x53380d13]
     @ [0x650a7354, 0x766a0abb, 0x81c2c92e, 0x92722c85]
     @ [0xa2bfe8a1, 0xa81a664b, 0xc24b8b70, 0xc76c51a3]
     @ [0xd192e819, 0xd6990624, 0xf40e3585, 0x106aa070]
     @ [0x19a4c116, 0x1e376c08, 0x2748774c, 0x34b0bcb5]
     @ [0x391c0cb3, 0x4ed8aa4a, 0x5b9cca4f, 0x682e6ff3]
     @ [0x748f82ee, 0x78a5636f, 0x84c87814, 0x8cc70208]
     @ [0x90befffa, 0xa4506ceb, 0xbef9a3f7, 0xc67178f2]"

definition sha_init :: hash_words where
  "sha_init = (0x6a09e667, 0xbb67ae85, 0x3c6ef372, 0xa54ff53a,
               0x510e527f, 0x9b05688c, 0x1f83d9ab, 0x5be0cd19)"

text \<open>Padding: the byte 0x80, zero bytes up to 56 modulo 64, the bit length on 8 bytes.\<close>

definition be_bytes64 :: "64 word \<Rightarrow> byte list" where
  "be_bytes64 x = map (\<lambda>i. ucast (drop_bit (8 * (7 - i)) x)) [0..<8]"

definition sha_pad :: "byte list \<Rightarrow> byte list" where
  "sha_pad m =
     m @ [0x80] @ replicate ((119 - length m mod 64) mod 64) 0 @ be_bytes64 (word_of_nat (8 * length m))"

fun sha_blocks :: "nat \<Rightarrow> byte list \<Rightarrow> byte list list" where
  "sha_blocks 0 bs = []"
| "sha_blocks (Suc n) bs = take 64 bs # sha_blocks n (drop 64 bs)"

definition be_word :: "byte list \<Rightarrow> u32" where
  "be_word bs = foldl (\<lambda>acc b. push_bit 8 acc OR ucast b) 0 bs"

definition block_words :: "byte list \<Rightarrow> u32 list" where
  "block_words blk = map (\<lambda>i. be_word (take 4 (drop (4 * i) blk))) [0..<16]"

text \<open>The message schedule grows from 16 to 64 words.\<close>

fun schedule :: "nat \<Rightarrow> u32 list \<Rightarrow> u32 list" where
  "schedule 0 ws = ws"
| "schedule (Suc n) ws =
     (let t = length ws
      in schedule n (ws @ [small_sigma1 (ws ! (t - 2)) + ws ! (t - 7)
                           + small_sigma0 (ws ! (t - 15)) + ws ! (t - 16)]))"

definition sha_round :: "hash_words \<Rightarrow> u32 \<times> u32 \<Rightarrow> hash_words" where
  "sha_round st kw =
     (case st of (a, b, c, d, e, f, g, h) \<Rightarrow>
        (let t1 = h + big_sigma1 e + sha_ch e f g + fst kw + snd kw;
             t2 = big_sigma0 a + sha_maj a b c
         in (t1 + t2, a, b, c, d + t1, e, f, g)))"

definition add_words :: "hash_words \<Rightarrow> hash_words \<Rightarrow> hash_words" where
  "add_words x y =
     (case x of (a, b, c, d, e, f, g, h) \<Rightarrow>
      case y of (a', b', c', d', e', f', g', h') \<Rightarrow>
        (a + a', b + b', c + c', d + d', e + e', f + f', g + g', h + h'))"

definition sha_compress :: "hash_words \<Rightarrow> byte list \<Rightarrow> hash_words" where
  "sha_compress st blk =
     add_words st (foldl sha_round st (zip sha_k (schedule 48 (block_words blk))))"

definition be_bytes32 :: "u32 \<Rightarrow> byte list" where
  "be_bytes32 x = [ucast (drop_bit 24 x), ucast (drop_bit 16 x), ucast (drop_bit 8 x), ucast x]"

definition sha_digest :: "hash_words \<Rightarrow> byte list" where
  "sha_digest st =
     (case st of (a, b, c, d, e, f, g, h) \<Rightarrow>
        be_bytes32 a @ be_bytes32 b @ be_bytes32 c @ be_bytes32 d
        @ be_bytes32 e @ be_bytes32 f @ be_bytes32 g @ be_bytes32 h)"

definition sha256 :: "byte list \<Rightarrow> byte list" where
  "sha256 m =
     (let p = sha_pad m
      in sha_digest (foldl sha_compress sha_init (sha_blocks (length p div 64) p)))"

section \<open>Password derivation\<close>

text \<open>
  \<open>s.encode("utf-16")\<close> on a little-endian host: the byte-order mark FF FE, then every
  code point as one 16-bit unit or as a surrogate pair, low byte first.  A lone
  surrogate cannot be encoded.
\<close>

definition le_bytes16 :: "nat \<Rightarrow> byte list" where
  "le_bytes16 u = [word_of_nat u, word_of_nat (u div 256)]"

fun utf16_units :: "pystr \<Rightarrow> error + byte list" where
  "utf16_units [] = Inr []"
| "utf16_units (c # cs) =
     (if 0xD800 \<le> c \<and> c \<le> 0xDFFF then Inl UnicodeEncodeError
      else (case utf16_units cs of
              Inl e \<Rightarrow> Inl e
            | Inr bs \<Rightarrow>
                (if c < 0x10000 then Inr (le_bytes16 c @ bs)
                 else Inr (le_bytes16 (0xD800 + (c - 0x10000) div 0x400)
                           @ le_bytes16 (0xDC00 + (c - 0x10000) mod 0x400) @ bs))))"

definition encode_utf_16 :: "pystr \<Rightarrow> error + byte list" where
  "encode_utf_16 s = (case utf16_units s of Inl e \<Rightarrow> Inl e | Inr bs \<Rightarrow> Inr ([0xFF, 0xFE] @ bs))"

text \<open>
  The salt loop of \<open>mk_password_block\<close>: \<open>for i in range(int(len(salt)/2))\<close>, leaving at
  the first pair of zero bytes, else appending \<open>chr(salt[2*i])\<close>.
\<close>

fun clean_salt_loop :: "byte list \<Rightarrow> nat list \<Rightarrow> pystr \<Rightarrow> error + pystr" where
  "clean_salt_loop salt [] clean_salt = Inr clean_salt"
| "clean_salt_loop salt (i # is) clean_salt =
     (case idx salt (2 * i) of
        Inl e \<Rightarrow> Inl e
      | Inr lo \<Rightarrow>
          (case idx salt (2 * i + 1) of
             Inl e \<Rightarrow> Inl e
           | Inr hi \<Rightarrow>
               if lo = 0x00 \<and> hi = 0x00 then Inr clean_salt
               else clean_salt_loop salt is (clean_salt @ [unat lo])))"

definition mk_password_block :: "pystr \<Rightarrow> int \<Rightarrow> byte list \<Rightarrow> error + byte list" where
  "mk_password_block passwd iteration salt =
     (case clean_salt_loop salt [0..<length salt div 2] [] of
        Inl e \<Rightarrow> Inl e
      | Inr clean_salt \<Rightarrow>
          (case encode_utf_16 (clean_salt @ passwd) of
             Inl e \<Rightarrow> Inl e
           | Inr encoded \<Rightarrow> Inr ((sha256 ^^ nat iteration) (drop 2 encoded))))"

section \<open>Secret service\<close>

text \<open>
  The two keyring helpers, seen from the program: a lookup gives the saved bytes, or
  prints a failure and gives \<open>b''\<close>; a store files the bytes, or prints a failure.
\<close>

definition get_password_from_secret_service :: "env \<Rightarrow> byte list io" where
  "get_password_from_secret_service e =
     (case secret_lookup e of
        Some readed_pass \<Rightarrow> ret readed_pass
      | None \<Rightarrow> then_do (print (Fail ''failed to read from keyring'')) (\<lambda>_. ret []))"

definition seve_password_to_secret_service :: "env \<Rightarrow> byte list \<Rightarrow> unit io" where
  "seve_password_to_secret_service e password w =
     (if secret_store_ok e then (Inr (), w\<lparr>stored := stored w @ [password]\<rparr>)
      else print (Fail ''Can't save password to Secret Service agent'') w)"

section \<open>Commands that write to the device\<close>

text \<open>\<open>py3_sg.write(dev, cdb, data)\<close>: the command is recorded; a rejected write raises.\<close>

definition sg_write :: "env \<Rightarrow> byte list \<Rightarrow> byte list \<Rightarrow> unit io" where
  "sg_write e cdb data w =
     (let w' = w\<lparr>sent := sent w @ [SgWrite cdb data]\<rparr>
      in if dev_write e (sent w) cdb data then (Inr (), w') else (Inl DeviceError, w'))"

text \<open>\<open>try: body  except: handler\<close>, the bare \<open>except\<close> catching every exception.\<close>

definition try_except :: "unit io \<Rightarrow> unit io \<Rightarrow> unit io" where
  "try_except body handler w =
     (case body w of (Inl ex, w') \<Rightarrow> handler w' | (Inr u, w') \<Rightarrow> (Inr u, w'))"

text \<open>
  A hashed password is either the \<open>bytes\<close> that \<open>mk_password_block\<close> returns or the
  \<open>str\<close> that \<open>change_password\<close> builds for an empty side.  \<open>bytes + x\<close> raises
  \<open>TypeError\<close> unless \<open>x\<close> is \<open>bytes\<close>.
\<close>

datatype pyval = Bytes "byte list" | Str pystr

definition bytes_add :: "byte list \<Rightarrow> pyval \<Rightarrow> error + byte list" where
  "bytes_add a x = (case x of Bytes b \<Rightarrow> Inr (a @ b) | Str s \<Rightarrow> Inl TypeError)"

text \<open>The cipher chain that \<open>unlock\<close> and \<open>change_password\<close> share word for word.\<close>

definition cipher_pwblen :: "int \<Rightarrow> int io" where
  "cipher_pwblen cipher_id =
     (if cipher_id \<in> set [0x10, 0x12, 0x18] then ret 16
      else if cipher_id \<in> set [0x20, 0x22, 0x28] then ret 32
      else if cipher_id = 0x30 then ret 32
      else then_do (print (Fail (''Unsupported cipher '' @ hex cipher_id)))
             (\<lambda>_. raise (SysExit 1)))"

text \<open>
  \<open>unlock(device, save_passwd, unlock_with_saved_passwd)\<close>; \<open>passwd\<close> is what
  \<open>getpass\<close> returns when asked.
\<close>

definition unlock :: "env \<Rightarrow> pystr \<Rightarrow> bool \<Rightarrow> bool \<Rightarrow> unit io" where
  "unlock e passwd save_passwd unlock_with_saved_passwd =
     then_do (get_encryption_status e) (\<lambda>(sec_status, cipher_id, _).
       if sec_status \<in> set [0x00, 0x02]
       then print (Fail ''Your device is already unlocked!'')
       else if sec_status \<noteq> 0x01
       then then_do (print (Fail ''Wrong device status!'')) (\<lambda>_. raise (SysExit 1))
       else
         then_do (cipher_pwblen cipher_id) (\<lambda>pwblen.
         then_do
           (if \<not> unlock_with_saved_passwd
            then then_do (print (Question ''Insert password to Unlock the device:'')) (\<lambda>_.
                 then_do (read_HSB1 e) (\<lambda>(iteration, salt, _).
                   lift (mk_password_block passwd iteration salt)))
            else then_do (print (Success ''Unlock use saved password'')) (\<lambda>_.
                   get_password_from_secret_service e))
           (\<lambda>pwd_hashed.
         then_do (if save_passwd then seve_password_to_secret_service e pwd_hashed else ret ())
           (\<lambda>_.
         then_do (lift (htons pwblen)) (\<lambda>len_bytes.
         then_do (lift (set_item [0xC1, 0xE1, 0x00, 0x00, 0x00, 0x00, 0x00, 0x00, 0x28, 0x00]
                          8 (pwblen + 8))) (\<lambda>cdb.
           try_except
             (then_do (lift (scsi_pack_cdb cdb)) (\<lambda>packed_cdb.
              then_do (lift (scsi_pack_cdb ([0x45, 0x00, 0x00, 0x00, 0x00, 0x00]
                                            @ map uint len_bytes))) (\<lambda>packed_block.
              then_do (sg_write e packed_cdb (packed_block @ pwd_hashed)) (\<lambda>_.
                print (Success ''Device unlocked.'')))))
             (print (Fail ''Wrong password? Or something bad is happened. Try again''))))))))"

text \<open>The loop \<open>for _ in range(32): s = s + chr(0x00)\<close>.\<close>

fun zero_fill :: "nat \<Rightarrow> pystr \<Rightarrow> pystr" where
  "zero_fill 0 s = s"
| "zero_fill (Suc n) s = zero_fill n (s @ [0x00])"

text \<open>
  \<open>change_password()\<close>; the three passphrases are what \<open>getpass\<close> returns for the old
  password, the new one and its confirmation.
\<close>

definition change_password :: "env \<Rightarrow> pystr \<Rightarrow> pystr \<Rightarrow> pystr \<Rightarrow> unit io" where
  "change_password e old_passwd new_passwd new_passwd2 =
     then_do (get_encryption_status e) (\<lambda>(sec_status, cipher_id, _).
       if sec_status \<notin> set [0x02, 0x00]
       then then_do (print (Fail
              ''Device has to be unlocked or without encryption to perform this operation''))
              (\<lambda>_. raise (SysExit 1))
       else
         then_do (cipher_pwblen cipher_id) (\<lambda>pwblen.
         then_do (print (Question ''Insert the OLD password'')) (\<lambda>_.
         then_do (print (Question ''Insert the NEW password'')) (\<lambda>_.
         then_do (print (Question ''Confirm the NEW password'')) (\<lambda>_.
           if new_passwd \<noteq> new_passwd2
           then then_do (print (Fail ''Password confirmation doesn't match the given password''))
                  (\<lambda>_. raise (SysExit 1))
           else if length old_passwd = 0 \<and> length new_passwd = 0
           then then_do (print (Fail ''Both passwords shouldn't be empty''))
                  (\<lambda>_. raise (SysExit 1))
           else
             then_do (read_HSB1 e) (\<lambda>(iteration, salt, _).
             then_do (lift (htons pwblen)) (\<lambda>len_bytes.
             then_do
               (if length old_passwd > 0
                then then_do (lift (mk_password_block old_passwd iteration salt)) (\<lambda>h.
                     then_do (lift (idx ([0x45, 0x00, 0x00, 0x00, 0x00, 0x00] @ map uint len_bytes) 3))
                       (\<lambda>f.
                     then_do (lift (set_item ([0x45, 0x00, 0x00, 0x00, 0x00, 0x00]
                                              @ map uint len_bytes) 3 (f OR 0x10)))
                       (\<lambda>pw_block. ret (Bytes h, pw_block))))
                else ret (Str (zero_fill 32 []),
                          [0x45, 0x00, 0x00, 0x00, 0x00, 0x00] @ map uint len_bytes))
               (\<lambda>(old_passwd_hashed, pw_block).
             then_do
               (if length new_passwd > 0
                then then_do (lift (mk_password_block new_passwd iteration salt)) (\<lambda>h.
                     then_do (lift (idx pw_block 3)) (\<lambda>f.
                     then_do (lift (set_item pw_block 3 (f OR 0x01)))
                       (\<lambda>pw_block'. ret (Bytes h, pw_block'))))
                else ret (Str (zero_fill 32 []), pw_block))
               (\<lambda>(new_passwd_hashed, pw_block).
             then_do (lift (idx pw_block 3)) (\<lambda>f.
             then_do (if f AND 0x11 = 0x11 then lift (set_item pw_block 3 (f AND 0xEE))
                      else ret pw_block) (\<lambda>pw_block.
             then_do (lift (set_item [0xC1, 0xE2, 0x00, 0x00, 0x00, 0x00, 0x00, 0x00, 0x48, 0x00]
                              8 (8 + 2 * pwblen))) (\<lambda>cdb.
               try_except
                 (then_do (lift (scsi_pack_cdb cdb)) (\<lambda>packed_cdb.
                  then_do (lift (scsi_pack_cdb pw_block)) (\<lambda>packed_block.
                  then_do (lift (bytes_add packed_block old_passwd_hashed)) (\<lambda>with_old.
                  then_do (lift (bytes_add with_old new_passwd_hashed)) (\<lambda>payload.
                  then_do (sg_write e packed_cdb payload) (\<lambda>_.
                    print (Success ''Password changed.'')))))))
                 (print (Fail
                    ''Error changing password: Wrong password or something bad is happened.''))))))))))))))"

text \<open>\<open>os.urandom(n)\<close>: the first \<open>n\<close> bytes of the random stream.\<close>

definition urandom :: "env \<Rightarrow> nat \<Rightarrow> byte list" where
  "urandom e n = map (random_byte e) [0..<n]"

definition secure_erase :: "env \<Rightarrow> int \<Rightarrow> unit io" where
  "secure_erase e cipher_id0 =
     then_do (get_encryption_status e) (\<lambda>(_, current_cipher_id, key_reset0).
       let cipher_id = (if cipher_id0 = 0 then current_cipher_id else cipher_id0) in
       then_do
         (if cipher_id \<in> set [0x10, 0x12, 0x18]
          then then_do (lift (set_item [0x45, 0x00, 0x00, 0x00, 0x30, 0x00, 0x00, 0x00] 3 0x01))
                 (\<lambda>pw_block. ret (16, pw_block))
          else if cipher_id \<in> set [0x20, 0x22, 0x28]
          then then_do (lift (set_item [0x45, 0x00, 0x00, 0x00, 0x30, 0x00, 0x00, 0x00] 3 0x01))
                 (\<lambda>pw_block. ret (32, pw_block))
          else if cipher_id = 0x30
          then ret (32, [0x45, 0x00, 0x00, 0x00, 0x30, 0x00, 0x00, 0x00])
          else then_do (print (Fail (''Unsupported cipher '' @ hex cipher_id)))
                 (\<lambda>_. raise (SysExit 1)))
         (\<lambda>(pwblen, pw_block).
       then_do (lift (set_item [0xC1, 0xE3, 0x00, 0x00, 0x00, 0x00, 0x00, 0x00, 0x08, 0x00]
                        8 (pwblen + 8))) (\<lambda>cdb.
       then_do (get_encryption_status e) (\<lambda>(_, _, key_reset).
       then_do (lift (store_from cdb 2 (map uint key_reset))) (\<lambda>cdb.
         try_except
           (then_do (lift (scsi_pack_cdb cdb)) (\<lambda>packed_cdb.
            then_do (lift (scsi_pack_cdb (pw_block @ map uint (urandom e (nat pwblen)))))
              (\<lambda>packed_block.
            then_do (sg_write e packed_cdb packed_block) (\<lambda>_.
              print (Success
                ''Device erased. You need to create a new partition on the device (Hint: fdisk and mkfs)'')))))
           (print (Fail ''Something wrong.'')))))))"

section \<open>Reference definitions\<close>

text \<open>
  The statements below compare the program with these definitions, which follow the
  wording of the specification rather than the text of the program.
\<close>

text \<open>The page number read back from descriptor bytes as a big-endian integer.\<close>

definition be_value :: "byte list \<Rightarrow> int" where
  "be_value bs = foldl (\<lambda>acc b. 256 * acc + uint b) 0 bs"

text \<open>
  The checksum in the words of the specification: the sum of bytes 0 to 509, plus
  byte 0 once more, negated modulo 256.
\<close>

definition spec_checksum :: "byte list \<Rightarrow> int" where
  "spec_checksum data = (- (sum_list (map uint (take 510 data)) + uint (data ! 0))) mod 256"

definition signature_ok :: "byte list \<Rightarrow> bool" where
  "signature_ok data \<longleftrightarrow> take 4 data = [0x00, 0x01, 0x44, 0x57]"

text \<open>
  Salt cleaning in the words of the specification: pairs of bytes, up to the first
  pair of zeros, each pair giving its low byte as a character.
\<close>

fun salt_pairs :: "byte list \<Rightarrow> (byte \<times> byte) list" where
  "salt_pairs (lo # hi # rest) = (lo, hi) # salt_pairs rest"
| "salt_pairs rest = []"

definition spec_clean_salt :: "byte list \<Rightarrow> pystr" where
  "spec_clean_salt salt =
     map (\<lambda>p. unat (fst p)) (takeWhile (\<lambda>p. \<not> (fst p = 0 \<and> snd p = 0)) (salt_pairs salt))"

text \<open>
  The derivation as the specification words it: the little-endian code units of the
  cleaned salt followed by the passphrase, without their first two bytes, hashed
  \<open>n\<close> times.
\<close>

definition derive_spec :: "pystr \<Rightarrow> byte list \<Rightarrow> nat \<Rightarrow> error + byte list" where
  "derive_spec passphrase salt n =
     (case utf16_units (spec_clean_salt salt @ passphrase) of
        Inl e \<Rightarrow> Inl e
      | Inr units \<Rightarrow> Inr ((sha256 ^^ n) (drop 2 units)))"

text \<open>The same derivation keeping every code unit.\<close>

definition derive_all_units :: "pystr \<Rightarrow> byte list \<Rightarrow> nat \<Rightarrow> error + byte list" where
  "derive_all_units passphrase salt n =
     (case utf16_units (spec_clean_salt salt @ passphrase) of
        Inl e \<Rightarrow> Inl e
      | Inr units \<Rightarrow> Inr ((sha256 ^^ n) units))"

text \<open>Reading hexadecimal digits back, to show that \<open>hex\<close> loses nothing.\<close>

definition digit_value :: "char \<Rightarrow> nat" where
  "digit_value c = (if of_char c < (58::nat) then of_char c - 48 else of_char c - 87)"

definition hex_value :: "string \<Rightarrow> nat" where
  "hex_value cs = foldl (\<lambda>acc c. 16 * acc + digit_value c) 0 cs"

section \<open>A mock device\<close>

text \<open>
  A device for concrete runs.  It answers the status query with the given security
  status and cipher and with a key-reset token that changes with every command it has
  seen; it answers any other read with the given Handy Store block; it accepts every
  write.  The keyring is empty.
\<close>

definition status_reply :: "byte \<Rightarrow> byte \<Rightarrow> byte list \<Rightarrow> byte list" where
  "status_reply st cipher token =
     [0x45, 0x00, 0x00, st, cipher, 0x00, 0x00, 0x00] @ token @ replicate 500 0x00"

definition mock_token :: "nat \<Rightarrow> byte list" where
  "mock_token k = [word_of_nat k, 0xAA, 0xBB, 0xCC]"

definition mock_device :: "byte \<Rightarrow> byte \<Rightarrow> byte list \<Rightarrow> env" where
  "mock_device st cipher hsb =
     \<lparr>dev_read = (\<lambda>hist cdb n.
        if take 1 cdb = [0xC0] then Some (status_reply st cipher (mock_token (length hist)))
        else Some hsb),
      dev_write = (\<lambda>hist cdb data. True),
      secret_lookup = None,
      secret_store_ok = True,
      random_byte = (\<lambda>i. word_of_nat i)\<rparr>"

definition world0 :: world where
  "world0 = \<lparr>sent = [], out = [], stored = []\<rparr>"

text \<open>
  A Handy Store block 1 with iteration count 1000, the salt \<open>AB\<close> and a matching
  checksum byte.
\<close>

definition hsb_block :: "byte list" where
  "hsb_block =
     [0x00, 0x01, 0x44, 0x57, 0x00, 0x00, 0x00, 0x00, 0xE8, 0x03, 0x00, 0x00,
      0x41, 0x00, 0x42, 0x00] @ replicate 495 0x00 @ [0xF6]"

definition hsb1_cdb :: "byte list" where
  "hsb1_cdb = [0xD8, 0x00, 0x00, 0x00, 0x00, 0x01, 0x00, 0x00, 0x01, 0x00]"

definition status_cdb_bytes :: "byte list" where
  "status_cdb_bytes = [0xC0, 0x45, 0x00, 0x00, 0x00, 0x00, 0x00, 0x00, 0x30, 0x00]"

chapter \<open>Properties\<close>


section \<open>Sequencing\<close>

lemma then_do_ret [simp]: "then_do (ret x) f = f x"
  by (rule ext) (simp add: then_do_def ret_def)

lemma then_do_raise [simp]: "then_do (raise e) f = raise e"
  by (rule ext) (simp add: then_do_def raise_def)

lemma then_do_lift_Inr [simp]: "then_do (lift (Inr x)) f = f x"
  by (rule ext) (simp add: then_do_def lift_def)

lemma then_do_lift_Inl [simp]: "then_do (lift (Inl e)) f = raise e"
  by (rule ext) (simp add: then_do_def lift_def raise_def)

lemma then_do_print [simp]: "then_do (print m) f w = f () (w\<lparr>out := out w @ [m]\<rparr>)"
  by (simp add: then_do_def print_def)

lemma then_do_sg_read_Some:
  "dev_read e (sent w) cdb n = Some d \<Longrightarrow>
   then_do (sg_read e cdb n) f w = f d (w\<lparr>sent := sent w @ [SgRead cdb n]\<rparr>)"
  by (simp add: then_do_def sg_read_def)

lemma sg_read_Some:
  "dev_read e (sent w) cdb n = Some d \<Longrightarrow>
   sg_read e cdb n w = (Inr d, w\<lparr>sent := sent w @ [SgRead cdb n]\<rparr>)"
  by (simp add: sg_read_def)

section \<open>Hexadecimal strings\<close>

lemma digit_value_hex_digit: "d < 16 \<Longrightarrow> digit_value (hex_digit d) = d"
  by (simp add: digit_value_def hex_digit_def)

lemma hex_value_snoc: "hex_value (cs @ [c]) = 16 * hex_value cs + digit_value c"
  by (simp add: hex_value_def)

lemma hex_value_hex_digits: "hex_value (hex_digits n) = n"
proof (induction n rule: hex_digits.induct)
  case (1 n)
  show ?case
  proof (cases "n < 16")
    case True
    then show ?thesis
      by (subst hex_digits.simps) (simp add: hex_value_def digit_value_hex_digit)
  next
    case False
    with 1 have ih: "hex_value (hex_digits (n div 16)) = n div 16" by simp
    have "hex_digits n = hex_digits (n div 16) @ [hex_digit (n mod 16)]"
      using False by (subst hex_digits.simps) simp
    then show ?thesis
      by (simp add: hex_value_snoc ih digit_value_hex_digit)
  qed
qed

lemma hex_digits_inj:
  assumes "hex_digits a = hex_digits b"
  shows "a = b"
proof -
  have "hex_value (hex_digits a) = hex_value (hex_digits b)"
    using assms by (rule arg_cong)
  then show ?thesis
    by (simp only: hex_value_hex_digits)
qed

lemma hex_eq_iff:
  assumes "0 \<le> a" "0 \<le> b"
  shows "hex a = hex b \<longleftrightarrow> a = b"
proof
  assume "hex a = hex b"
  with assms have "hex_digits (nat a) = hex_digits (nat b)"
    by (simp add: hex_def)
  then have "nat a = nat b"
    by (rule hex_digits_inj)
  with assms show "a = b"
    by simp
next
  assume "a = b"
  then show "hex a = hex b"
    by simp
qed

section \<open>The Handy Store checksum\<close>

lemma sum_bytes_append:
  "sum_bytes data (is @ js) c =
     (case sum_bytes data is c of Inl e \<Rightarrow> Inl e | Inr c' \<Rightarrow> sum_bytes data js c')"
  by (induction "is" arbitrary: c) (auto split: sum.splits)

lemma sum_bytes_upt:
  "n \<le> length data \<Longrightarrow>
   sum_bytes data [0..<n] c = Inr (c + sum_list (map uint (take n data)))"
proof (induction n)
  case 0
  then show ?case by simp
next
  case (Suc n)
  then have "n < length data" by simp
  with Suc show ?case
    by (simp add: sum_bytes_append idx_def take_Suc_conv_app_nth)
qed

lemma and_255_mod: "(x :: int) AND 0xFF = x mod 256"
proof -
  have "x AND mask 8 = x mod 2 ^ 8"
    by (simp only: take_bit_eq_mask [symmetric] take_bit_eq_mod)
  then show ?thesis
    by (simp add: mask_eq_exp_minus_1)
qed

lemma hsb_checksum_eq:
  assumes "510 \<le> length data"
  shows "hsb_checksum data = Inr (hex (spec_checksum data))"
proof -
  have "sum_bytes data [0..<510] 0 = Inr (sum_list (map uint (take 510 data)))"
    using sum_bytes_upt [OF assms, of 0] by simp
  moreover have "0 < length data"
    using assms by linarith
  then have "idx data 0 = Inr (data ! 0)"
    by (simp add: idx_def)
  ultimately show ?thesis
    by (simp add: hsb_checksum_def spec_checksum_def Let_def and_255_mod)
qed

lemma spec_checksum_range: "0 \<le> spec_checksum data" "spec_checksum data < 256"
  by (simp_all add: spec_checksum_def)

lemma hsb_checksum_matches:
  assumes "510 \<le> length data"
  shows "hsb_checksum data = Inr cs \<Longrightarrow> cs = hex (uint b) \<longleftrightarrow> spec_checksum data = uint b"
  using hsb_checksum_eq [OF assms] hex_eq_iff [of "spec_checksum data" "uint b"]
  by (auto simp: spec_checksum_range)


section \<open>Reading the Handy Store\<close>

lemma uint_byte_le [simp]: "uint (b :: byte) \<le> 255"
  using uint_lt2p [of b] by simp

lemma scsi_pack_cdb_uint [simp]: "scsi_pack_cdb (map uint bs) = Inr bs"
  by (induction bs) simp_all

lemma read_handy_store_eq:
  assumes "0 \<le> page" "page < 2 ^ 32"
  shows "read_handy_store e page =
         sg_read e [0xD8, 0x00, word_of_int (page div 2 ^ 24), word_of_int (page div 2 ^ 16),
                    word_of_int (page div 2 ^ 8), word_of_int page, 0x00, 0x00, 0x01, 0x00]
                 512"
proof -
  have "htonl page = Inr [word_of_int (page div 2 ^ 24), word_of_int (page div 2 ^ 16),
                          word_of_int (page div 2 ^ 8), word_of_int page]"
    using assms by (simp add: htonl_def)
  then show ?thesis
    by (simp add: read_handy_store_def set_item_def BLOCK_SIZE_def)
qed

lemma read_handy_store_1: "read_handy_store e 1 = sg_read e hsb1_cdb 512"
  using read_handy_store_eq [of 1 e] by (simp add: hsb1_cdb_def)

lemma byte_eq_uint: "0 \<le> k \<Longrightarrow> k < 256 \<Longrightarrow> k = uint (b :: byte) \<longleftrightarrow> b = word_of_int k"
  by (auto simp: uint_word_of_int take_bit_int_eq_self)

lemma check_signature_eq:
  assumes "4 \<le> length data"
  shows "check_signature [0x00, 0x01, 0x44, 0x57] data [0..<4] w =
         (if signature_ok data then (Inr (), w)
          else (Inl (SysExit 1), w\<lparr>out := out w @ [Fail ''Wrong HSB1 signature.'']\<rparr>))"
proof -
  obtain a b c d rest where data: "data = a # b # c # d # rest"
    using assms by (auto simp: numeral_eq_Suc Suc_le_length_iff)
  have upt: "[0..<4] = [0, 1, 2, 3::nat]"
    by (simp add: upt_rec)
  show ?thesis
    unfolding data upt
    by (simp add: idx_def signature_ok_def byte_eq_uint ret_def raise_def)
qed


lemma read_HSB1_eq:
  assumes rd: "dev_read e (sent w) hsb1_cdb 512 = Some data"
    and len: "length data = 512"
  shows "read_HSB1 e w =
     (if spec_checksum data \<noteq> uint (data ! 511)
      then (Inl (SysExit 1),
            w\<lparr>sent := sent w @ [SgRead hsb1_cdb 512], out := out w @ [Fail ''Wrong HSB1 checksum'']\<rparr>)
      else if \<not> signature_ok data
      then (Inl (SysExit 1),
            w\<lparr>sent := sent w @ [SgRead hsb1_cdb 512], out := out w @ [Fail ''Wrong HSB1 signature.'']\<rparr>)
      else (Inr (uint (data ! 8) + 2 ^ 8 * uint (data ! 9) + 2 ^ 16 * uint (data ! 10)
                   + 2 ^ 24 * uint (data ! 11),
                 take 8 (drop 12 data) @ [0x00, 0x00],
                 take 202 (drop 24 data) @ [0x00, 0x00]),
            w\<lparr>sent := sent w @ [SgRead hsb1_cdb 512]\<rparr>))"
proof -
  let ?w1 = "w\<lparr>sent := sent w @ [SgRead hsb1_cdb 512]\<rparr>"
  have cs: "hsb_checksum data = Inr (hex (spec_checksum data))"
    using len by (simp add: hsb_checksum_eq)
  have i511: "idx data 511 = Inr (data ! 511)"
    using len by (simp add: idx_def)
  have hexeq: "hex (spec_checksum data) = hex (uint (data ! 511))
      \<longleftrightarrow> spec_checksum data = uint (data ! 511)"
    by (rule hex_eq_iff) (simp_all add: spec_checksum_range)
  have sig: "check_signature [0x00, 0x01, 0x44, 0x57] data [0..<4] ?w1 =
         (if signature_ok data then (Inr (), ?w1)
          else (Inl (SysExit 1), ?w1\<lparr>out := out ?w1 @ [Fail ''Wrong HSB1 signature.'']\<rparr>))"
    using len by (intro check_signature_eq) simp
  have unp: "unpack_le_u32 (drop 8 data) =
      Inr (uint (data ! 8) + 2 ^ 8 * uint (data ! 9) + 2 ^ 16 * uint (data ! 10)
           + 2 ^ 24 * uint (data ! 11))"
    using len by (simp add: unpack_le_u32_def)
  show ?thesis
    unfolding read_HSB1_def read_handy_store_1
    by (simp add: then_do_sg_read_Some [OF rd] cs i511 hexeq then_do_def [of "check_signature _ _ _"]
        sig unp slice_def ret_def raise_def)
qed


lemma sent_sg_read [simp]: "sent (snd (sg_read e cdb n w)) = sent w @ [SgRead cdb n]"
  by (simp add: sg_read_def Let_def split: option.splits)

lemma be_value_htonl:
  assumes "0 \<le> page" "page < 4294967296"
  shows "be_value [word_of_int (page div 16777216), word_of_int (page div 65536),
                   word_of_int (page div 256), word_of_int page :: byte] = page"
proof -
  define q1 where "q1 = page div 256"
  define q2 where "q2 = q1 div 256"
  define q3 where "q3 = q2 div 256"
  have d2: "page div 65536 = q2"
    unfolding q2_def q1_def by (simp add: div_mult2_eq [symmetric])
  have d3: "page div 16777216 = q3"
    unfolding q3_def q2_def q1_def by (simp add: div_mult2_eq [symmetric])
  have "q3 < 256" "0 \<le> q3"
    using assms unfolding d3 [symmetric] by simp_all
  then have m3: "q3 mod 256 = q3"
    by simp
  have e1: "page = 256 * q1 + page mod 256"
    unfolding q1_def by simp
  have e2: "q1 = 256 * q2 + q1 mod 256"
    unfolding q2_def by simp
  have e3: "q2 = 256 * q3 + q2 mod 256"
    unfolding q3_def by simp
  have "be_value [word_of_int q3, word_of_int q2, word_of_int q1, word_of_int page :: byte]
        = 256 * (256 * (256 * q3 + q2 mod 256) + q1 mod 256) + page mod 256"
    by (simp add: be_value_def uint_word_of_int take_bit_eq_mod m3)
  also have "\<dots> = page"
    using e1 e2 e3 by simp
  finally show ?thesis
    by (simp add: d2 d3 q1_def)
qed


section \<open>The Handy Store read descriptor\<close>

text \<open>
  C9, amended.  For every page number that fits 32 bits, \<open>read_handy_store\<close> hands the
  device one read of 512 bytes whose 10-byte descriptor is \<open>D8 00\<close>, the page number on
  four bytes, most significant first, and then \<open>00 00 01 00\<close>.
\<close>

theorem handy_store_read_descriptor:
  assumes "0 \<le> page" "page < 2 ^ 32"
  shows "sent (snd (read_handy_store e page w)) =
           sent w @ [SgRead ([0xD8, 0x00]
                             @ [word_of_int (page div 2 ^ 24), word_of_int (page div 2 ^ 16),
                                word_of_int (page div 2 ^ 8), word_of_int page]
                             @ [0x00, 0x00, 0x01, 0x00]) 512]
         \<and> be_value [word_of_int (page div 2 ^ 24), word_of_int (page div 2 ^ 16),
                      word_of_int (page div 2 ^ 8), word_of_int page :: byte] = page"
proof -
  have "be_value [word_of_int (page div 2 ^ 24), word_of_int (page div 2 ^ 16),
                  word_of_int (page div 2 ^ 8), word_of_int page :: byte] = page"
    using be_value_htonl [of page] assms by simp
  then show ?thesis
    using assms by (simp add: read_handy_store_eq)
qed

theorem handy_store_read_descriptor_witness:
  "(0::int) \<le> 1 \<and> (1::int) < 2 ^ 32 \<and>
   sent (snd (read_handy_store (mock_device 1 0x10 hsb_block) 1 world0)) =
     [SgRead [0xD8, 0x00, 0x00, 0x00, 0x00, 0x01, 0x00, 0x00, 0x01, 0x00] 512]"
  using handy_store_read_descriptor [of 1 "mock_device 1 0x10 hsb_block" world0]
  by (simp add: world0_def)

text \<open>
  The descriptor for page 1 is not the eleven bytes \<open>D8 00 00 00 00 01 01 00 00 01 00\<close>
  that the wire table spells out.
\<close>

theorem handy_store_read_trailing_counterexample:
  "sent (snd (read_handy_store (mock_device 1 0x10 hsb_block) 1 world0)) \<noteq>
     [SgRead ([0xD8, 0x00] @ [0x00, 0x00, 0x00, 0x01] @ [0x01, 0x00, 0x00, 0x01, 0x00]) 512]"
  by (simp add: read_handy_store_1 hsb1_cdb_def world0_def)


section \<open>Validation of Handy Store block 1\<close>

lemma sum_list_update_int:
  "k < length xs \<Longrightarrow> sum_list (xs[k := x]) = sum_list xs + x - (xs ! k :: int)"
proof (induction xs arbitrary: k)
  case Nil
  then show ?case by simp
next
  case (Cons a xs)
  then show ?case by (cases k) simp_all
qed

lemma sum_take_update:
  assumes "i < 510" "510 \<le> length data"
  shows "sum_list (map uint (take 510 (data[i := v]))) =
         sum_list (map uint (take 510 data)) + uint v - uint (data ! i)"
proof -
  have "map uint (take 510 (data[i := v])) = (map uint (take 510 data))[i := uint v]"
    using assms by (simp add: take_update_swap map_update)
  moreover have "i < length (map uint (take 510 data))"
    using assms by simp
  ultimately show ?thesis
    using assms by (simp add: sum_list_update_int)
qed

lemma byte_diff_half:
  assumes "v \<noteq> x + (0x80 :: byte)"
  shows "uint v - uint x \<noteq> 128 \<and> uint v - uint x \<noteq> - 128"
proof -
  have add: "uint (x + 0x80) = (uint x + 128) mod 256"
    by (simp add: uint_word_ariths)
  have neq: "uint v \<noteq> uint (x + 0x80)"
    using assms by (simp only: word_uint_eq_iff not_False_eq_True)
  have bx: "0 \<le> uint x" "uint x < 256"
    using uint_lt2p [of x] by simp_all
  have bv: "0 \<le> uint v" "uint v < 256"
    using uint_lt2p [of v] by simp_all
  show ?thesis
  proof (cases "uint x < 128")
    case True
    then have "(uint x + 128) mod 256 = uint x + 128"
      using bx by simp
    with add have "uint (x + 0x80) = uint x + 128"
      by simp
    with neq bv True show ?thesis
      by linarith
  next
    case False
    have "uint x + 128 = uint x - 128 + 256"
      by simp
    then have "(uint x + 128) mod 256 = (uint x - 128 + 256) mod 256"
      by (simp only:)
    also have "\<dots> = (uint x - 128) mod 256"
      by (simp only: mod_add_self2)
    also have "\<dots> = uint x - 128"
      using False bx by simp
    finally have "(uint x + 128) mod 256 = uint x - 128" .
    with add have "uint (x + 0x80) = uint x - 128"
      by simp
    with neq bx bv False show ?thesis
      by linarith
  qed
qed

lemma neg_mod_shift:
  fixes t d :: int
  assumes "d \<noteq> 0" "- 256 < d" "d < 256"
  shows "(- (t + d)) mod 256 \<noteq> (- t) mod 256"
proof
  assume "(- (t + d)) mod 256 = (- t) mod 256"
  then have "256 dvd (- (t + d)) - (- t)"
    by (simp only: mod_eq_dvd_iff)
  then have "256 dvd d"
    by simp
  with assms show False
    by presburger
qed

lemma neg_mod_shift_twice:
  fixes t d :: int
  assumes "d \<noteq> 0" "- 256 < d" "d < 256" "d \<noteq> 128" "d \<noteq> - 128"
  shows "(- (t + 2 * d)) mod 256 \<noteq> (- t) mod 256"
proof
  assume "(- (t + 2 * d)) mod 256 = (- t) mod 256"
  then have "256 dvd (- (t + 2 * d)) - (- t)"
    by (simp only: mod_eq_dvd_iff)
  then have "256 dvd 2 * d"
    by simp
  with assms show False
    by presburger
qed

lemma spec_checksum_update:
  assumes len: "510 \<le> length data" and i: "i < 510" and v: "v \<noteq> data ! i"
    and half: "i = 0 \<longrightarrow> v \<noteq> data ! 0 + 0x80"
  shows "spec_checksum (data[i := v]) \<noteq> spec_checksum data"
proof -
  define S where "S = sum_list (map uint (take 510 data))"
  define d where "d = uint v - uint (data ! i)"
  have b1: "- 256 < d"
    using uint_byte_le [of "data ! i"] uint_nonnegative [of v]
    unfolding d_def by linarith
  have b2: "d < 256"
    using uint_byte_le [of v] uint_nonnegative [of "data ! i"]
    unfolding d_def by linarith
  note bounds = b1 b2
  have nz: "d \<noteq> 0"
    using v by (simp add: d_def word_uint_eq_iff)
  have s': "sum_list (map uint (take 510 (data[i := v]))) = S + d"
    using sum_take_update [OF i len] by (simp add: S_def d_def)
  have old: "spec_checksum data = (- (S + uint (data ! 0))) mod 256"
    by (simp add: spec_checksum_def S_def)
  have pos: "0 < length data"
    using len by linarith
  show ?thesis
  proof (cases "i = 0")
    case True
    then have h: "d \<noteq> 128" "d \<noteq> - 128"
      using half byte_diff_half [of v "data ! 0"] by (simp_all add: d_def)
    have "(data[i := v]) ! 0 = v"
      using True pos by simp
    then have "spec_checksum (data[i := v]) = (- (S + d + uint v)) mod 256"
      by (simp only: spec_checksum_def s')
    moreover have "S + d + uint v = (S + uint (data ! 0)) + 2 * d"
      using True by (simp add: d_def)
    ultimately have "spec_checksum (data[i := v]) = (- ((S + uint (data ! 0)) + 2 * d)) mod 256"
      by simp
    then show ?thesis
      using neg_mod_shift_twice [OF nz bounds h, of "S + uint (data ! 0)"] old by simp
  next
    case False
    then have "(data[i := v]) ! 0 = data ! 0"
      by simp
    then have "spec_checksum (data[i := v]) = (- (S + d + uint (data ! 0))) mod 256"
      by (simp only: spec_checksum_def s')
    moreover have "S + d + uint (data ! 0) = (S + uint (data ! 0)) + d"
      by simp
    ultimately have "spec_checksum (data[i := v]) = (- ((S + uint (data ! 0)) + d)) mod 256"
      by simp
    then show ?thesis
      using neg_mod_shift [OF nz bounds, of "S + uint (data ! 0)"] old by simp
  qed
qed


lemma mock_device_read_hsb [simp]:
  "dev_read (mock_device st cipher hsb) hist hsb1_cdb n = Some hsb"
  by (simp add: mock_device_def hsb1_cdb_def)

lemma mock_device_read_status [simp]:
  "dev_read (mock_device st cipher hsb) hist status_cdb_bytes n =
     Some (status_reply st cipher (mock_token (length hist)))"
  by (simp add: mock_device_def status_cdb_bytes_def)

lemma length_hsb_block [simp]: "length hsb_block = 512"
  by (simp add: hsb_block_def)

lemma take_510_hsb_block:
  "take 510 hsb_block =
     [0x00, 0x01, 0x44, 0x57, 0x00, 0x00, 0x00, 0x00, 0xE8, 0x03, 0x00, 0x00,
      0x41, 0x00, 0x42, 0x00] @ replicate 494 0x00"
  by (simp add: hsb_block_def)

lemma hsb_block_nth [simp]:
  "hsb_block ! 0 = 0x00" "hsb_block ! 8 = 0xE8" "hsb_block ! 9 = 0x03" "hsb_block ! 10 = 0x00"
  "hsb_block ! 11 = 0x00" "hsb_block ! 12 = 0x41" "hsb_block ! 511 = 0xF6"
  by (simp_all add: hsb_block_def nth_append)

lemma sum_hsb_block: "sum_list (map uint (take 510 hsb_block)) = 522"
  by (simp add: take_510_hsb_block sum_list_replicate)

lemma spec_checksum_hsb_block [simp]: "spec_checksum hsb_block = 246"
  by (simp add: spec_checksum_def sum_hsb_block)

lemma signature_ok_hsb_block [simp]: "signature_ok hsb_block"
  by (simp add: signature_ok_def hsb_block_def)

lemma replicate_4: "replicate 4 x = [x, x, x, x]"
  by (simp add: numeral_eq_Suc)

lemma salt_hsb_block [simp]:
  "take 8 (drop 12 hsb_block) = [0x41, 0x00, 0x42, 0x00, 0x00, 0x00, 0x00, 0x00]"
  by (simp add: hsb_block_def replicate_4)

lemma hint_hsb_block [simp]: "take 202 (drop 24 hsb_block) = replicate 202 0x00"
  by (simp add: hsb_block_def)

lemma read_HSB1_hsb_block:
  "read_HSB1 (mock_device st cipher hsb_block) w =
     (Inr (1000, [0x41, 0x00, 0x42, 0x00, 0x00, 0x00, 0x00, 0x00, 0x00, 0x00],
           replicate 202 0x00 @ [0x00, 0x00]),
      w\<lparr>sent := sent w @ [SgRead hsb1_cdb 512]\<rparr>)"
  by (simp add: read_HSB1_eq [where data = hsb_block])


lemma hsb_block_510: "hsb_block ! 510 = 0x00"
  by (simp add: hsb_block_def nth_append)

lemma spec_checksum_hsb_block_510 [simp]: "spec_checksum (hsb_block[510 := v]) = 246"
  by (simp add: spec_checksum_def sum_hsb_block)

lemma signature_ok_update:
  "4 \<le> i \<Longrightarrow> signature_ok (data[i := v]) \<longleftrightarrow> signature_ok data"
  by (simp add: signature_ok_def)

lemma spec_checksum_hsb_block_0 [simp]: "spec_checksum (hsb_block[0 := 0x80]) = 246"
proof -
  have "sum_list (map uint (take 510 (hsb_block[0 := 0x80]))) = 522 + uint (0x80 :: byte) - uint (hsb_block ! 0)"
    using sum_take_update [of 0 hsb_block "0x80"] by (simp add: sum_hsb_block)
  then show ?thesis
    by (simp add: spec_checksum_def)
qed

lemma signature_hsb_block_0 [simp]: "\<not> signature_ok (hsb_block[0 := 0x80])"
  by (simp add: signature_ok_def hsb_block_def)

text \<open>
  C4, amended.  For every 512-byte block that passes validation, the checksum in the
  words of the specification equals the stored byte 511; and changing one byte at an
  offset from 1 to 509, or byte 0 by anything but 0x80, makes validation fail with the
  checksum error.
\<close>

theorem checksum_detects_byte_change:
  assumes len: "length data = 512"
    and rd: "dev_read e (sent w) hsb1_cdb 512 = Some data"
    and ok: "fst (read_HSB1 e w) = Inr r"
    and rd': "dev_read e' (sent w) hsb1_cdb 512 = Some (data[i := v])"
    and i: "i < 510" and v: "v \<noteq> data ! i" and half: "i = 0 \<longrightarrow> v \<noteq> data ! 0 + 0x80"
  shows "spec_checksum data = uint (data ! 511) \<and>
         read_HSB1 e' w =
           (Inl (SysExit 1),
            w\<lparr>sent := sent w @ [SgRead hsb1_cdb 512],
              out := out w @ [Fail ''Wrong HSB1 checksum'']\<rparr>)"
proof -
  have cs: "spec_checksum data = uint (data ! 511)"
    using ok read_HSB1_eq [OF rd len] by (auto split: if_splits)
  have "510 \<le> length data"
    using len by simp
  then have "spec_checksum (data[i := v]) \<noteq> spec_checksum data"
    using i v half by (rule spec_checksum_update)
  moreover have "(data[i := v]) ! 511 = data ! 511"
    using i by simp
  ultimately have "spec_checksum (data[i := v]) \<noteq> uint ((data[i := v]) ! 511)"
    using cs by simp
  moreover have "length (data[i := v]) = 512"
    using len by simp
  ultimately have "read_HSB1 e' w =
           (Inl (SysExit 1),
            w\<lparr>sent := sent w @ [SgRead hsb1_cdb 512],
              out := out w @ [Fail ''Wrong HSB1 checksum'']\<rparr>)"
    using read_HSB1_eq [OF rd'] by simp
  with cs show ?thesis
    by simp
qed

theorem checksum_detects_byte_change_witness:
  "length hsb_block = 512
   \<and> fst (read_HSB1 (mock_device 2 0x10 hsb_block) world0)
       = Inr (1000, [0x41, 0x00, 0x42, 0x00, 0x00, 0x00, 0x00, 0x00, 0x00, 0x00],
              replicate 202 0x00 @ [0x00, 0x00])
   \<and> (12::nat) < 510 \<and> (0x43 :: byte) \<noteq> hsb_block ! 12
   \<and> spec_checksum hsb_block = uint (hsb_block ! 511)
   \<and> read_HSB1 (mock_device 2 0x10 (hsb_block[12 := 0x43])) world0 =
       (Inl (SysExit 1),
        \<lparr>sent = [SgRead hsb1_cdb 512], out = [Fail ''Wrong HSB1 checksum''], stored = []\<rparr>)"
  using checksum_detects_byte_change [of hsb_block "mock_device 2 0x10 hsb_block" world0
      "(1000, [0x41, 0x00, 0x42, 0x00, 0x00, 0x00, 0x00, 0x00, 0x00, 0x00],
        replicate 202 0x00 @ [0x00, 0x00])"
      "mock_device 2 0x10 (hsb_block[12 := 0x43])" 12 "0x43"]
  by (simp add: read_HSB1_hsb_block world0_def)

text \<open>
  Two changes of a valid block that do not end in the checksum error: byte 510 is not
  summed, so the changed block still passes; byte 0 changed by 0x80 leaves the checksum
  alone and fails on the signature.
\<close>

theorem checksum_blind_spots_counterexample:
  "\<not> isl (fst (read_HSB1 (mock_device 2 0x10 hsb_block) world0))
   \<and> hsb_block[510 := 0xFF] \<noteq> hsb_block
   \<and> \<not> isl (fst (read_HSB1 (mock_device 2 0x10 (hsb_block[510 := 0xFF])) world0))
   \<and> hsb_block[0 := 0x80] \<noteq> hsb_block
   \<and> out (snd (read_HSB1 (mock_device 2 0x10 (hsb_block[0 := 0x80])) world0))
       = [Fail ''Wrong HSB1 signature.'']"
proof -
  have a: "\<not> isl (fst (read_HSB1 (mock_device 2 0x10 hsb_block) world0))"
    by (simp add: read_HSB1_hsb_block)
  have "(hsb_block[510 := 0xFF]) ! 510 \<noteq> hsb_block ! 510"
    by (simp add: hsb_block_510)
  then have b: "hsb_block[510 := 0xFF] \<noteq> hsb_block"
    by metis
  have c: "\<not> isl (fst (read_HSB1 (mock_device 2 0x10 (hsb_block[510 := 0xFF])) world0))"
    by (simp add: read_HSB1_eq [where data = "hsb_block[510 := 0xFF]"] signature_ok_update)
  have "(hsb_block[0 := 0x80]) ! 0 \<noteq> hsb_block ! 0"
    by simp
  then have d: "hsb_block[0 := 0x80] \<noteq> hsb_block"
    by metis
  have e: "out (snd (read_HSB1 (mock_device 2 0x10 (hsb_block[0 := 0x80])) world0))
       = [Fail ''Wrong HSB1 signature.'']"
    by (simp add: read_HSB1_eq [where data = "hsb_block[0 := 0x80]"] world0_def)
  from a b c d e show ?thesis
    by simp
qed

end
